theory Spec2Isabelle
  imports Main "HOL-Library.AList"
begin

section \<open>Time\<close>

text \<open>
  A Python \<open>datetime\<close> has microsecond resolution and \<open>datetime.utcnow()\<close> reads the
  system clock. A point in time is the integer number of microseconds since
  1970-01-01 00:00:00 UTC; the difference of two points is a \<open>timedelta\<close>, again in
  microseconds (negative when the second point is the earlier one: the system clock is
  not monotonic). Every call of \<open>utcnow()\<close> in the source is an explicit argument of
  the function that makes it.
\<close>

type_synonym datetime = int
type_synonym timedelta = int

text \<open>
  Python normalises a \<open>timedelta\<close> to \<open>days\<close>, \<open>0 \<le> seconds < 86400\<close> and
  \<open>0 \<le> microseconds < 10^6\<close>, the days taking the sign. The attribute \<open>.seconds\<close> is
  the second of these components, not the total number of seconds.
\<close>

definition seconds :: "timedelta \<Rightarrow> int" where
  "seconds td = (td mod 86400000000) div 1000000"

definition timedelta_hours :: "int \<Rightarrow> timedelta" where
  "timedelta_hours h = h * 3600000000"

section \<open>Errors\<close>

datatype exn =
    HTTPException (status_code: nat) (detail: string)
  | OperationalError
  | JWTError
  | TypeError

abbreviation AccountLocked :: exn where
  "AccountLocked \<equiv>
     HTTPException 429 ''Account locked: Too many failed attempts. Try again later.''"

abbreviation InvalidCredential :: exn where
  "InvalidCredential \<equiv> HTTPException 401 ''Invalid PIN: Please check your PIN and try again''"

abbreviation IssuanceExhausted :: exn where
  "IssuanceExhausted \<equiv> HTTPException 500 ''Could not generate unique PIN''"

abbreviation MissingCredential :: exn where
  "MissingCredential \<equiv> HTTPException 401 ''Missing authorization header''"

abbreviation credentials_exception :: exn where
  "credentials_exception \<equiv> HTTPException 401 ''Could not validate credentials''"

section \<open>The credential store (models.py, database.py)\<close>

text \<open>
  The \<open>User\<close> table row. The primary key is \<open>None\<close> until the row is committed; the
  field is called \<open>id_key\<close> here, \<open>id\<close> being the identity function of HOL.
\<close>

record User =
  id_key :: "int option"
  full_name :: string
  pin_code :: string
  role :: string
  created_at :: datetime

record UserRegister =
  reg_full_name :: string

text \<open>
  The three \<open>where\<close> clauses the source puts on \<open>select(User)\<close>:
  \<open>User.full_name == n\<close>, \<open>User.full_name.ilike(p)\<close> and
  \<open>(User.full_name == n) & (User.pin_code == p)\<close>.
\<close>

datatype where_clause =
    FullNameEq string
  | FullNameILike string
  | FullNameAndPinEq string string

text \<open>
  \<open>ILIKE\<close> of PostgreSQL (the engine of \<open>DATABASE_URL\<close>): the right operand is a
  pattern in which \<open>%\<close> stands for any sequence of characters, \<open>_\<close> for any one
  character and a backslash makes the next character literal; letters are compared
  without regard to case. The name typed at login is used as the pattern as it is.

  Two limits of this matcher. It folds the ASCII letters only, the characters of HOL
  being bytes, whereas PostgreSQL on a UTF-8 database also folds letters outside ASCII;
  so for such names the database may find a row that the matcher does not. And for a
  pattern that ends in a lone backslash PostgreSQL fails the statement when its matcher
  gets there, the error leaving \<open>verify_pin\<close> without a failure being recorded,
  whereas here such a pattern matches nothing. No theorem below depends on either:
  the general ones take the answer of the lookup as given, for every name and every
  store, and the instances use plain ASCII names.
\<close>

definition lower_char :: "char \<Rightarrow> char" where
  "lower_char c =
     (let n = (of_char c :: nat) in if 65 \<le> n \<and> n \<le> 90 then char_of (n + 32) else c)"

fun like_match :: "string \<Rightarrow> string \<Rightarrow> bool" where
  "like_match [] s = (s = [])"
| "like_match (c # p) s =
     (if c = CHR ''%'' then
        (like_match p s \<or> (case s of [] \<Rightarrow> False | x # s' \<Rightarrow> like_match (c # p) s'))
      else if c = CHR ''_'' then
        (case s of [] \<Rightarrow> False | x # s' \<Rightarrow> like_match p s')
      else if c = CHR 0x5C then
        (case p of
           [] \<Rightarrow> False
         | e # p' \<Rightarrow> (case s of [] \<Rightarrow> False | x # s' \<Rightarrow> x = e \<and> like_match p' s'))
      else (case s of [] \<Rightarrow> False | x # s' \<Rightarrow> x = c \<and> like_match p s'))"

definition ilike :: "string \<Rightarrow> string \<Rightarrow> bool" where
  "ilike s pat = like_match (map lower_char pat) (map lower_char s)"

fun matches :: "where_clause \<Rightarrow> User \<Rightarrow> bool" where
  "matches (FullNameEq n) u = (full_name u = n)"
| "matches (FullNameILike p) u = ilike (full_name u) p"
| "matches (FullNameAndPinEq n p) u = (full_name u = n \<and> pin_code u = p)"

text \<open>
  A database session: the rows of the user table in the order in which a scan returns
  them, the next value of the primary-key sequence, and the \<open>select\<close> statements
  executed so far (so that "no lookup happened" can be stated).
\<close>

record Session =
  rows :: "User list"
  next_id :: int
  executed :: "where_clause list"

text \<open>\<open>session.exec(select(User).where(w)).first()\<close>\<close>

definition exec_first :: "where_clause \<Rightarrow> Session \<Rightarrow> User option \<times> Session" where
  "exec_first w session =
     (find (matches w) (rows session), session\<lparr>executed := executed session @ [w]\<rparr>)"

text \<open>\<open>session.add(user); session.commit(); session.refresh(user)\<close>\<close>

definition add_commit :: "User \<Rightarrow> Session \<Rightarrow> User \<times> Session" where
  "add_commit user session =
     (let stored = user\<lparr>id_key := Some (next_id session)\<rparr>
      in (stored, session\<lparr>rows := rows session @ [stored], next_id := next_id session + 1\<rparr>))"

section \<open>The lockout tracker and PIN verification (auth.py)\<close>

text \<open>
  The module-level dictionary \<open>failed_attempts\<close>: from the name as typed at login to
  the pair (number of failed attempts, time of the last failure).
\<close>

type_synonym failed_attempts = "string \<rightharpoonup> (int \<times> datetime)"

text \<open>
  \<open>check_failed_attempts\<close> raises or returns; it returns the dictionary, from which it
  may have deleted the name. \<open>now\<close> is its reading of \<open>datetime.utcnow()\<close>.
\<close>

definition check_failed_attempts ::
  "string \<Rightarrow> datetime \<Rightarrow> failed_attempts \<Rightarrow> exn + failed_attempts" where
  "check_failed_attempts name now fa =
     (case fa name of
        None \<Rightarrow> Inr fa
      | Some (attempts, lock_time) \<Rightarrow>
          if attempts \<ge> 3 then
            (if seconds (now - lock_time) < 1800 then Inl AccountLocked
             else Inr (fa(name := None)))
          else Inr fa)"

text \<open>
  \<open>verify_pin\<close> reads the clock in \<open>check_failed_attempts\<close> (\<open>t_check\<close>) and again
  when it records a failure (\<open>t_fail\<close>). It returns the exception raised or the user,
  with the session and the dictionary as the call leaves them.
\<close>

definition verify_pin ::
  "string \<Rightarrow> string \<Rightarrow> Session \<Rightarrow> datetime \<Rightarrow> datetime \<Rightarrow> failed_attempts \<Rightarrow>
     (exn + User) \<times> Session \<times> failed_attempts" where
  "verify_pin name pin session t_check t_fail fa =
     (case check_failed_attempts name t_check fa of
        Inl e \<Rightarrow> (Inl e, session, fa)
      | Inr fa1 \<Rightarrow>
          (case exec_first (FullNameILike name) session of
             (user, session1) \<Rightarrow>
               if user = None \<or> pin_code (the user) \<noteq> pin then
                 (Inl InvalidCredential, session1,
                  (case fa1 name of
                     Some (attempts, _) \<Rightarrow> fa1(name \<mapsto> (attempts + 1, t_fail))
                   | None \<Rightarrow> fa1(name \<mapsto> (1, t_fail))))
               else
                 (Inr (the user), session1, fa1(name := None))))"

text \<open>
  Successive calls of \<open>verify_pin\<close> on the same process: each attempt is (name, PIN,
  clock reading of the check, clock reading of the failure record); the results are
  listed in order.
\<close>

fun login_attempts ::
  "(string \<times> string \<times> datetime \<times> datetime) list \<Rightarrow> Session \<Rightarrow> failed_attempts \<Rightarrow>
     (exn + User) list \<times> Session \<times> failed_attempts" where
  "login_attempts [] session fa = ([], session, fa)"
| "login_attempts ((name, pin, t_check, t_fail) # rest) session fa =
     (case verify_pin name pin session t_check t_fail fa of
        (r, session1, fa1) \<Rightarrow>
          (case login_attempts rest session1 fa1 of
             (rs, session2, fa2) \<Rightarrow> (r # rs, session2, fa2)))"

section \<open>Session tokens (auth.py)\<close>

text \<open>
  The values a token payload holds, and a Python \<open>dict\<close> with string keys as an
  association list in insertion order.
\<close>

datatype pyval = PyNone | PyStr string | PyInt int | PyDatetime datetime

type_synonym pydict = "(string \<times> pyval) list"

text \<open>\<open>d.get(k)\<close>: the value, or \<open>None\<close> when the key is absent.\<close>

definition py_get :: "pydict \<Rightarrow> string \<Rightarrow> pyval" where
  "py_get d k = (case map_of d k of None \<Rightarrow> PyNone | Some v \<Rightarrow> v)"

text \<open>\<open>d.update(e)\<close>: the items of \<open>e\<close> are stored in \<open>d\<close> one by one, in order.\<close>

definition py_update :: "pydict \<Rightarrow> pydict \<Rightarrow> pydict" where
  "py_update d e = foldl (\<lambda>acc (k, v). AList.update k v acc) d e"

definition SECRET_KEY :: string where
  "SECRET_KEY = ''your-secret-key-change-in-production''"

definition ALGORITHM :: string where
  "ALGORITHM = ''HS256''"

definition ACCESS_TOKEN_EXPIRE_HOURS :: int where
  "ACCESS_TOKEN_EXPIRE_HOURS = 24"

text \<open>
  The library \<open>jose\<close> is not part of the repository. Its \<open>jwt.encode\<close> and
  \<open>jwt.decode\<close> are modelled by the contract the source relies on. A token is the
  algorithm of its header, its payload and its signature; the keyed hash is a parameter
  \<open>mac\<close> (key, then header algorithm and payload), about which nothing is assumed. The
  text form of a token (base64 over JSON) is taken to carry strings, integers and
  \<open>null\<close> without loss.

  \<open>timegm(t.utctimetuple())\<close> is the time in whole seconds, the microseconds dropped.
\<close>

datatype 'sig token = Token (token_alg: string) (token_payload: pydict) (token_signature: 'sig)

definition timegm :: "datetime \<Rightarrow> int" where
  "timegm t = t div 1000000"

text \<open>
  \<open>jwt.encode\<close> turns a datetime under \<open>exp\<close>, \<open>iat\<close> or \<open>nbf\<close> into whole
  seconds, then serialises and signs; a datetime left under another key cannot be
  serialised.
\<close>

definition convert_time_claim :: "string \<Rightarrow> pydict \<Rightarrow> pydict" where
  "convert_time_claim time_claim claims =
     (case map_of claims time_claim of
        Some (PyDatetime t) \<Rightarrow> AList.update time_claim (PyInt (timegm t)) claims
      | _ \<Rightarrow> claims)"

fun is_datetime :: "pyval \<Rightarrow> bool" where
  "is_datetime (PyDatetime t) = True"
| "is_datetime v = False"

definition jwt_encode ::
  "(string \<Rightarrow> string \<times> pydict \<Rightarrow> 'sig) \<Rightarrow> pydict \<Rightarrow> string \<Rightarrow> string \<Rightarrow> exn + 'sig token" where
  "jwt_encode mac claims key algorithm =
     (let claims1 = fold convert_time_claim [''exp'', ''iat'', ''nbf''] claims
      in if list_ex (\<lambda>(k, v). is_datetime v) claims1 then Inl TypeError
         else Inr (Token algorithm claims1 (mac key (algorithm, claims1))))"

text \<open>
  \<open>jwt.decode\<close> with the default options: the header algorithm must be one of
  \<open>algorithms\<close>, the signature must verify, \<open>exp\<close> (when present) must not be less
  than the current time in whole seconds, and \<open>sub\<close> (when present) must be a string.
  Every failure is a \<open>JWTError\<close> or a subclass of it.

  The model covers the payloads that \<open>jwt.encode\<close> writes for the login endpoints:
  \<open>exp\<close> absent or an integer, and none of \<open>iat\<close>, \<open>nbf\<close>, \<open>aud\<close>, \<open>iss\<close>,
  \<open>jti\<close>, \<open>at_hash\<close>. On an \<open>exp\<close> that is not an integer the library calls
  \<open>int\<close> (a string of digits passes as its number, \<open>null\<close> raises a \<open>TypeError\<close>
  that \<open>get_current_user\<close> does not catch); the model refuses such a payload with
  \<open>JWTError\<close>. The checks of the other registered claims are not modelled.
\<close>

definition validate_exp :: "pydict \<Rightarrow> datetime \<Rightarrow> bool" where
  "validate_exp claims now =
     (case map_of claims ''exp'' of
        None \<Rightarrow> True
      | Some (PyInt e) \<Rightarrow> \<not> e < timegm now
      | Some v \<Rightarrow> False)"

definition validate_sub :: "pydict \<Rightarrow> bool" where
  "validate_sub claims =
     (case map_of claims ''sub'' of
        None \<Rightarrow> True
      | Some (PyStr s) \<Rightarrow> True
      | Some v \<Rightarrow> False)"

definition jwt_decode ::
  "(string \<Rightarrow> string \<times> pydict \<Rightarrow> 'sig) \<Rightarrow> 'sig token \<Rightarrow> string \<Rightarrow> string list \<Rightarrow> datetime \<Rightarrow>
     exn + pydict" where
  "jwt_decode mac tok key algorithms now =
     (if token_alg tok \<notin> set algorithms then Inl JWTError
      else if token_signature tok \<noteq> mac key (token_alg tok, token_payload tok) then Inl JWTError
      else if \<not> validate_exp (token_payload tok) now then Inl JWTError
      else if \<not> validate_sub (token_payload tok) then Inl JWTError
      else Inr (token_payload tok))"

text \<open>\<open>create_access_token\<close>; \<open>now\<close> is its reading of \<open>datetime.utcnow()\<close>.\<close>

definition create_access_token ::
  "(string \<Rightarrow> string \<times> pydict \<Rightarrow> 'sig) \<Rightarrow> pydict \<Rightarrow> datetime \<Rightarrow> exn + 'sig token" where
  "create_access_token mac data now =
     (let to_encode = data;
          expire = now + timedelta_hours ACCESS_TOKEN_EXPIRE_HOURS;
          to_encode = py_update to_encode
            [(''exp'', PyDatetime expire), (''sub'', py_get data ''full_name'')]
      in jwt_encode mac to_encode SECRET_KEY ALGORITHM)"

text \<open>
  \<open>get_current_user\<close>: the bearer credential (absent, or a token), the session and the
  reading of the clock inside \<open>jwt.decode\<close>. The comparison of the payload's \<open>sub\<close>
  with \<open>None\<close> is reached only for a payload that \<open>jwt.decode\<close> accepted, where
  \<open>sub\<close> is absent, \<open>null\<close> or a string.
\<close>

definition get_current_user ::
  "(string \<Rightarrow> string \<times> pydict \<Rightarrow> 'sig) \<Rightarrow> 'sig token option \<Rightarrow> Session \<Rightarrow> datetime \<Rightarrow>
     (exn + User) \<times> Session" where
  "get_current_user mac credentials session now =
     (case credentials of
        None \<Rightarrow> (Inl MissingCredential, session)
      | Some tok \<Rightarrow>
          (case jwt_decode mac tok SECRET_KEY [ALGORITHM] now of
             Inl e \<Rightarrow> (Inl credentials_exception, session)
           | Inr payload \<Rightarrow>
               (case py_get payload ''sub'' of
                  PyStr name \<Rightarrow>
                    (case exec_first (FullNameEq name) session of
                       (None, session1) \<Rightarrow> (Inl credentials_exception, session1)
                     | (Some user, session1) \<Rightarrow> (Inr user, session1))
                | _ \<Rightarrow> (Inl credentials_exception, session))))"

text \<open>The dictionary \<open>login_user\<close> and \<open>admin_login\<close> hand to \<open>create_access_token\<close>.\<close>

definition token_data :: "User \<Rightarrow> pydict" where
  "token_data user =
     [(''full_name'', PyStr (full_name user)),
      (''role'', PyStr (role user)),
      (''user_id'', (case id_key user of None \<Rightarrow> PyNone | Some i \<Rightarrow> PyInt i))]"

section \<open>PIN issuance and registration (auth.py, main.py)\<close>

text \<open>
  \<open>str(n)\<close> for a natural number, and \<open>s.zfill(width)\<close> for a string without a sign.
\<close>

definition digit_char :: "nat \<Rightarrow> char" where
  "digit_char d = char_of (48 + d)"

function str :: "nat \<Rightarrow> string" where
  "str n = (if n < 10 then [digit_char n] else str (n div 10) @ [digit_char (n mod 10)])"
  by pat_completeness auto
termination
  by (relation "measure (\<lambda>n. n)") auto

definition zfill :: "nat \<Rightarrow> string \<Rightarrow> string" where
  "zfill width s = replicate (width - length s) CHR ''0'' @ s"

text \<open>
  \<open>generate_pin\<close>, given the number that \<open>random.randint(0, 9999)\<close> returned.
\<close>

definition generate_pin :: "nat \<Rightarrow> string" where
  "generate_pin r = zfill 4 (str r)"

text \<open>
  The random source of one request is the sequence \<open>randint\<close> of the numbers that its
  calls of \<open>random.randint(0, 9999)\<close> return: \<open>randint 0\<close> to the call before the loop,
  \<open>randint k\<close> to the call in the \<open>k\<close>-th round of the loop.

  The \<open>while\<close> loop of \<open>register_user\<close>, on the variables \<open>pin\<close>, \<open>existing\<close>,
  \<open>attempts\<close> and the session.
\<close>

function register_user_loop ::
  "string \<Rightarrow> (nat \<Rightarrow> nat) \<Rightarrow> string \<Rightarrow> User option \<Rightarrow> nat \<Rightarrow> Session \<Rightarrow>
     string \<times> User option \<times> nat \<times> Session" where
  "register_user_loop name randint pin existing attempts session =
     (if existing \<noteq> None \<and> attempts < 100 then
        (case exec_first (FullNameAndPinEq name (generate_pin (randint (attempts + 1)))) session of
           (existing1, session1) \<Rightarrow>
             register_user_loop name randint
               (generate_pin (randint (attempts + 1))) existing1 (attempts + 1) session1)
      else (pin, existing, attempts, session))"
  by pat_completeness auto
termination
  by (relation "measure (\<lambda>(name, randint, pin, existing, attempts, session). 100 - attempts)")
    auto

text \<open>
  The response of a successful registration: the message, the PIN, and the id, full name
  and role of the new user.
\<close>

record Registration =
  response_message :: string
  response_pin :: string
  response_user_id :: "int option"
  response_user_full_name :: string
  response_user_role :: string

text \<open>
  \<open>register_user\<close>; \<open>now\<close> is the reading of the clock that fills \<open>created_at\<close>. The
  session returned is the one the request leaves behind, also when it raises.
\<close>

definition register_user ::
  "UserRegister \<Rightarrow> Session \<Rightarrow> (nat \<Rightarrow> nat) \<Rightarrow> datetime \<Rightarrow> (exn + Registration) \<times> Session" where
  "register_user user_data session randint now =
     (case exec_first
             (FullNameAndPinEq (reg_full_name user_data) (generate_pin (randint 0))) session of
        (existing0, session0) \<Rightarrow>
          (case register_user_loop (reg_full_name user_data) randint
                  (generate_pin (randint 0)) existing0 0 session0 of
             (pin, existing, attempts, session1) \<Rightarrow>
               if attempts \<ge> 100 then (Inl IssuanceExhausted, session1)
               else
                 (case add_commit
                         \<lparr>id_key = None, full_name = reg_full_name user_data, pin_code = pin,
                          role = ''user'', created_at = now\<rparr> session1 of
                    (user, session2) \<Rightarrow>
                      (Inr \<lparr>response_message = ''Registration successful'', response_pin = pin,
                            response_user_id = id_key user,
                            response_user_full_name = full_name user,
                            response_user_role = role user\<rparr>,
                       session2))))"

text \<open>
  Registration requests served one after the other: each with its data, its random
  source and its clock reading.
\<close>

fun register_users ::
  "(UserRegister \<times> (nat \<Rightarrow> nat) \<times> datetime) list \<Rightarrow> Session \<Rightarrow> Session" where
  "register_users [] session = session"
| "register_users ((user_data, randint, now) # rest) session =
     register_users rest (snd (register_user user_data session randint now))"

text \<open>No two rows share both the full name and the PIN.\<close>

definition unique_name_pin :: "User list \<Rightarrow> bool" where
  "unique_name_pin us = distinct (map (\<lambda>u. (full_name u, pin_code u)) us)"

section \<open>Startup (main.py)\<close>

text \<open>
  \<open>lifespan\<close> up to its \<open>yield\<close>. \<open>create_all_ok k\<close> tells whether the \<open>k\<close>-th call of
  \<open>create_all\<close> succeeds (otherwise it raises \<open>OperationalError\<close>); \<open>now\<close> is the
  reading of the clock that fills \<open>created_at\<close> of the default admin.
\<close>

definition max_retries :: nat where
  "max_retries = 10"

fun wait_for_database :: "(nat \<Rightarrow> bool) \<Rightarrow> nat list \<Rightarrow> exn + unit" where
  "wait_for_database create_all_ok [] = Inr ()"
| "wait_for_database create_all_ok (attempt # rest) =
     (if create_all_ok attempt then Inr ()
      else if attempt < max_retries - 1 then wait_for_database create_all_ok rest
      else Inl OperationalError)"

definition lifespan :: "(nat \<Rightarrow> bool) \<Rightarrow> Session \<Rightarrow> datetime \<Rightarrow> exn + Session" where
  "lifespan create_all_ok session now =
     (case wait_for_database create_all_ok [0..<max_retries] of
        Inl e \<Rightarrow> Inl e
      | Inr _ \<Rightarrow>
          (case exec_first (FullNameEq ''Abiel Robinson'') session of
             (admin, session1) \<Rightarrow>
               if admin = None then
                 Inr (snd (add_commit
                        \<lparr>id_key = None, full_name = ''Abiel Robinson'', pin_code = ''0000'',
                         role = ''admin'', created_at = now\<rparr> session1))
               else Inr session1))"

section \<open>Example data\<close>

text \<open>
  Concrete inputs on which the theorems below are instantiated: a registered user, a
  store that holds only her, an empty store, a store in which the name of the default
  admin belongs to an ordinary user, a keyed hash that simply pairs key and message,
  a database that answers at once, never, or from the fourth call on, and random
  sources whose first number or first hundred numbers collide with the stored PIN.
\<close>

definition ada :: User where
  "ada = \<lparr>id_key = Some 2, full_name = ''Ada Lovelace'', pin_code = ''1234'', role = ''user'',
          created_at = 0\<rparr>"

definition example_session :: Session where
  "example_session = \<lparr>rows = [ada], next_id = 3, executed = []\<rparr>"

definition empty_session :: Session where
  "empty_session = \<lparr>rows = [], next_id = 1, executed = []\<rparr>"

definition namesake :: User where
  "namesake = \<lparr>id_key = Some 1, full_name = ''Abiel Robinson'', pin_code = ''4821'',
               role = ''user'', created_at = 0\<rparr>"

definition namesake_session :: Session where
  "namesake_session = \<lparr>rows = [namesake], next_id = 2, executed = []\<rparr>"

definition pairing_mac :: "string \<Rightarrow> string \<times> pydict \<Rightarrow> string \<times> string \<times> pydict" where
  "pairing_mac key msg = (key, msg)"

definition database_up :: "nat \<Rightarrow> bool" where
  "database_up k = True"

definition database_down :: "nat \<Rightarrow> bool" where
  "database_down k = False"

definition database_up_late :: "nat \<Rightarrow> bool" where
  "database_up_late k = (3 \<le> k)"

definition late_free_draws :: "nat \<Rightarrow> nat" where
  "late_free_draws k = (if k < 100 then 1234 else 1235)"

definition second_draw_free :: "nat \<Rightarrow> nat" where
  "second_draw_free k = (if k = 0 then 1234 else 42)"

section \<open>Facts about the lockout tracker\<close>

lemma seconds_within_day:
  assumes "0 \<le> td" and "td < 86400000000"
  shows "seconds td = td div 1000000"
  using assms by (simp add: seconds_def)

lemma check_locked:
  assumes "fa name = Some (attempts, lock_time)" and "3 \<le> attempts"
    and "0 \<le> now - lock_time" and "now - lock_time < 1800 * 1000000"
  shows "check_failed_attempts name now fa = Inl AccountLocked"
proof -
  have "seconds (now - lock_time) = (now - lock_time) div 1000000"
    using assms(3,4) by (intro seconds_within_day) simp_all
  moreover have "(now - lock_time) div 1000000 < 1800"
    using assms(4) by simp
  ultimately show ?thesis
    using assms(1,2) by (simp add: check_failed_attempts_def)
qed

text \<open>
  Within a day of the last failure the check is the one the comments of the source
  describe: locked for less than 30 minutes, reset from 30 minutes on.
\<close>

lemma check_within_a_day:
  assumes "fa name = Some (attempts, lock_time)" and "3 \<le> attempts"
    and "0 \<le> now - lock_time" and "now - lock_time < 86400000000"
  shows "check_failed_attempts name now fa =
           (if now - lock_time < 1800 * 1000000 then Inl AccountLocked
            else Inr (fa(name := None)))"
proof -
  have "seconds (now - lock_time) = (now - lock_time) div 1000000"
    using assms(3,4) by (rule seconds_within_day)
  moreover have "((now - lock_time) div 1000000 < 1800) = (now - lock_time < 1800 * 1000000)"
    by linarith
  ultimately show ?thesis
    using assms(1,2) by (simp add: check_failed_attempts_def)
qed

lemma check_raises_only_locked:
  "check_failed_attempts name now fa = Inl e \<Longrightarrow> e = AccountLocked"
  by (auto simp: check_failed_attempts_def split: option.splits if_splits)

lemma check_returns:
  "check_failed_attempts name now fa = Inr fa1 \<Longrightarrow> fa1 = fa \<or> fa1 = fa(name := None)"
  by (auto simp: check_failed_attempts_def split: option.splits if_splits)

lemma check_below_threshold:
  "fa name = None \<or> (\<exists>attempts t. fa name = Some (attempts, t) \<and> attempts < 3) \<Longrightarrow>
   check_failed_attempts name now fa = Inr fa"
  by (auto simp: check_failed_attempts_def)

text \<open>What a rejected attempt does, whichever of the two reasons rejects it.\<close>

lemma verify_pin_rejects:
  assumes "check_failed_attempts name t_check fa = Inr fa1"
    and "find (matches (FullNameILike name)) (rows session) = user"
    and "user = None \<or> pin_code (the user) \<noteq> pin"
  shows "verify_pin name pin session t_check t_fail fa =
     (Inl InvalidCredential, session\<lparr>executed := executed session @ [FullNameILike name]\<rparr>,
      fa1(name \<mapsto> (case fa1 name of None \<Rightarrow> 1 | Some (attempts, t) \<Rightarrow> attempts + 1, t_fail)))"
  using assms
  by (auto simp: verify_pin_def exec_first_def split: option.splits simp del: matches.simps)

text \<open>What an accepted attempt does.\<close>

lemma verify_pin_accepts:
  assumes "check_failed_attempts name t_check fa = Inr fa1"
    and "find (matches (FullNameILike name)) (rows session) = Some u"
    and "pin_code u = pin"
  shows "verify_pin name pin session t_check t_fail fa =
     (Inr u, session\<lparr>executed := executed session @ [FullNameILike name]\<rparr>,
      fa1(name := None))"
  using assms
  by (auto simp: verify_pin_def exec_first_def simp del: matches.simps)

lemma find_ada:
  "find (matches (FullNameILike ''Ada Lovelace'')) (rows example_session) = Some ada"
  by code_simp

lemma find_ada_lower_case:
  "find (matches (FullNameILike ''ada lovelace'')) (rows example_session) = Some ada"
  by code_simp

section \<open>Lockout before lookup\<close>

text \<open>
  C1. When the lockout record of the name typed at login has a count of at least 3 and
  its last failure lies less than 30 minutes back, \<open>verify_pin\<close> raises the lockout
  error for every PIN (the right one included) and every content of the credential
  store, and it leaves the session as it was: no \<open>select\<close> has been executed, so
  neither the lookup nor the PIN comparison took place.
\<close>

theorem verify_pin_locked_before_lookup:
  assumes "fa name = Some (attempts, lock_time)" and "3 \<le> attempts"
    and "0 \<le> t_check - lock_time" and "t_check - lock_time < 1800 * 1000000"
  shows "verify_pin name pin session t_check t_fail fa = (Inl AccountLocked, session, fa)"
  using check_locked [of fa name attempts lock_time t_check] assms
  by (simp add: verify_pin_def)

text \<open>
  The instance: three failures recorded at time 0, the right PIN one minute later.
\<close>

theorem verify_pin_locked_before_lookup_witness:
  "[''Ada Lovelace'' \<mapsto> (3, 0)] ''Ada Lovelace'' = Some (3, 0) \<and>
   pin_code ada = ''1234'' \<and>
   verify_pin ''Ada Lovelace'' ''1234'' example_session 60000000 60000001
     [''Ada Lovelace'' \<mapsto> (3, 0)] =
   (Inl AccountLocked, example_session, [''Ada Lovelace'' \<mapsto> (3, 0)])"
  using verify_pin_locked_before_lookup
    [of "[''Ada Lovelace'' \<mapsto> (3, 0)]" "''Ada Lovelace''" 3 0 60000000 "''1234''"
      example_session 60000001]
  by (simp add: ada_def)

section \<open>The end of the lockout window\<close>

text \<open>
  C2. The claim: with a count of at least 3 the check raises exactly when less than 30
  minutes have passed since the last failure, and resets the record after any longer
  time, a day or more included. The source compares \<open>.seconds\<close> of the difference,
  which starts again from 0 every 24 hours: one day and ten seconds after the last
  failure the check still raises the lockout error.
\<close>

theorem check_failed_attempts_locks_again_after_a_day:
  "check_failed_attempts ''Ada Lovelace'' (86400000000 + 10000000)
     [''Ada Lovelace'' \<mapsto> (3, 0)] = Inl AccountLocked"
  by (simp add: check_failed_attempts_def seconds_def)

section \<open>Three failures\<close>

text \<open>
  C3, as the claim states it, fails: starting without a lockout record, the third failed
  attempt in a row is answered with the generic invalid-credential error, and a third
  attempt with the right PIN is accepted.
\<close>

theorem third_attempt_not_locked_counterexample:
  "last (fst (login_attempts
      [(''Ada Lovelace'', ''0000'', 0, 1), (''Ada Lovelace'', ''0001'', 2, 3),
       (''Ada Lovelace'', ''0002'', 4, 5)] example_session Map.empty)) =
     Inl InvalidCredential \<and>
   last (fst (login_attempts
      [(''Ada Lovelace'', ''0000'', 0, 1), (''Ada Lovelace'', ''0001'', 2, 3),
       (''Ada Lovelace'', ''1234'', 4, 5)] example_session Map.empty)) = Inr ada \<and>
   Inl InvalidCredential \<noteq> (Inl AccountLocked :: exn + User)"
  by code_simp

text \<open>
  C3, amended. Starting without a lockout record for the name, the first two failed
  attempts (unknown name or wrong PIN) are answered with the generic invalid-credential
  error, and so is the third when it fails too; a third attempt with the right PIN is
  accepted. After three failures in a row the next attempt, made less than 30 minutes
  after the third failure was recorded, is answered with the lockout error whatever its
  PIN.
\<close>

theorem three_failures_lock_the_fourth_attempt:
  assumes "fa name = None"
    and "find (matches (FullNameILike name)) (rows session) = user"
    and "user = None \<or> pin_code (the user) \<noteq> p1"
    and "user = None \<or> pin_code (the user) \<noteq> p2"
  shows "fst (login_attempts [(name, p1, c1, f1), (name, p2, c2, f2), (name, p3, c3, f3)]
           session fa) =
         [Inl InvalidCredential, Inl InvalidCredential,
          if user = None \<or> pin_code (the user) \<noteq> p3 then Inl InvalidCredential
          else Inr (the user)] \<and>
         ((user = None \<or> pin_code (the user) \<noteq> p3) \<and>
          0 \<le> c4 - f3 \<and> c4 - f3 < 1800 * 1000000 \<longrightarrow>
          fst (login_attempts
            [(name, p1, c1, f1), (name, p2, c2, f2), (name, p3, c3, f3), (name, p4, c4, f4)]
            session fa) =
          [Inl InvalidCredential, Inl InvalidCredential, Inl InvalidCredential,
           Inl AccountLocked])"
proof -
  let ?s1 = "session\<lparr>executed := executed session @ [FullNameILike name]\<rparr>"
  let ?s2 = "?s1\<lparr>executed := executed ?s1 @ [FullNameILike name]\<rparr>"
  let ?s3 = "?s2\<lparr>executed := executed ?s2 @ [FullNameILike name]\<rparr>"
  let ?fa1 = "fa(name \<mapsto> (1, f1))"
  let ?fa2 = "?fa1(name \<mapsto> (2, f2))"
  let ?fa3 = "?fa2(name \<mapsto> (3, f3))"
  have r: "find (matches (FullNameILike name)) (rows ?s1) = user"
    "find (matches (FullNameILike name)) (rows ?s2) = user"
    using assms(2) by simp_all
  have k1: "check_failed_attempts name c1 fa = Inr fa"
    using assms(1) by (simp add: check_below_threshold)
  have k2: "check_failed_attempts name c2 ?fa1 = Inr ?fa1"
    by (simp add: check_below_threshold)
  have k3: "check_failed_attempts name c3 ?fa2 = Inr ?fa2"
    by (simp add: check_below_threshold)
  have v1: "verify_pin name p1 session c1 f1 fa = (Inl InvalidCredential, ?s1, ?fa1)"
    using verify_pin_rejects [OF k1 assms(2) assms(3), of f1] assms(1) by simp
  have v2: "verify_pin name p2 ?s1 c2 f2 ?fa1 = (Inl InvalidCredential, ?s2, ?fa2)"
    using verify_pin_rejects [OF k2 r(1) assms(4), of f2] by simp
  show ?thesis
  proof (cases "user = None \<or> pin_code (the user) \<noteq> p3")
    case True
    have v3: "verify_pin name p3 ?s2 c3 f3 ?fa2 = (Inl InvalidCredential, ?s3, ?fa3)"
      using verify_pin_rejects [OF k3 r(2) True, of f3] by simp
    have three: "fst (login_attempts [(name, p1, c1, f1), (name, p2, c2, f2), (name, p3, c3, f3)]
           session fa) = [Inl InvalidCredential, Inl InvalidCredential, Inl InvalidCredential]"
      by (simp only: login_attempts.simps v1 v2 v3 prod.case fst_conv)
    have four: "fst (login_attempts
            [(name, p1, c1, f1), (name, p2, c2, f2), (name, p3, c3, f3), (name, p4, c4, f4)]
            session fa) =
          [Inl InvalidCredential, Inl InvalidCredential, Inl InvalidCredential,
           Inl AccountLocked]"
      if window: "0 \<le> c4 - f3" "c4 - f3 < 1800 * 1000000"
    proof -
      have k4: "check_failed_attempts name c4 ?fa3 = Inl AccountLocked"
        using check_locked [of ?fa3 name 3 f3 c4] window by simp
      have v4: "verify_pin name p4 ?s3 c4 f4 ?fa3 = (Inl AccountLocked, ?s3, ?fa3)"
        using k4 by (simp add: verify_pin_def)
      show ?thesis
        by (simp only: login_attempts.simps v1 v2 v3 v4 prod.case fst_conv)
    qed
    from True three four show ?thesis
      by simp
  next
    case False
    then obtain u where u: "user = Some u" and pin: "pin_code u = p3"
      by auto
    have found: "find (matches (FullNameILike name)) (rows ?s2) = Some u"
      using r(2) u by simp
    have v3: "verify_pin name p3 ?s2 c3 f3 ?fa2 = (Inr u, ?s3, ?fa2(name := None))"
      using verify_pin_accepts [OF k3 found pin, of f3] by simp
    have "fst (login_attempts [(name, p1, c1, f1), (name, p2, c2, f2), (name, p3, c3, f3)]
           session fa) = [Inl InvalidCredential, Inl InvalidCredential, Inr u]"
      by (simp only: login_attempts.simps v1 v2 v3 prod.case fst_conv)
    with False u show ?thesis
      by simp
  qed
qed

text \<open>
  The instances: two wrong PINs for a registered name and then the right one; three
  wrong PINs and then the right one, a minute after the third failure.
\<close>

theorem three_failures_lock_the_fourth_attempt_witness:
  "pin_code ada = ''1234'' \<and>
   fst (login_attempts
      [(''Ada Lovelace'', ''0000'', 0, 1), (''Ada Lovelace'', ''0001'', 2, 3),
       (''Ada Lovelace'', ''1234'', 4, 5)]
      example_session Map.empty) =
   [Inl InvalidCredential, Inl InvalidCredential, Inr ada] \<and>
   fst (login_attempts
      [(''Ada Lovelace'', ''0000'', 0, 1), (''Ada Lovelace'', ''0001'', 2, 3),
       (''Ada Lovelace'', ''0002'', 4, 5), (''Ada Lovelace'', ''1234'', 60000005, 60000006)]
      example_session Map.empty) =
   [Inl InvalidCredential, Inl InvalidCredential, Inl InvalidCredential, Inl AccountLocked]"
proof -
  have wrong: "Some ada = None \<or> pin_code (the (Some ada)) \<noteq> ''0000''"
    "Some ada = None \<or> pin_code (the (Some ada)) \<noteq> ''0001''"
    by (simp_all add: ada_def)
  have empty: "(Map.empty :: failed_attempts) ''Ada Lovelace'' = None"
    by simp
  from three_failures_lock_the_fourth_attempt
    [OF empty find_ada wrong, where ?p3.0 = "''1234''" and ?c1.0 = 0 and ?f1.0 = 1
      and ?c2.0 = 2 and ?f2.0 = 3 and ?c3.0 = 4 and ?f3.0 = 5]
  have right_pin: "fst (login_attempts
      [(''Ada Lovelace'', ''0000'', 0, 1), (''Ada Lovelace'', ''0001'', 2, 3),
       (''Ada Lovelace'', ''1234'', 4, 5)]
      example_session Map.empty) =
   [Inl InvalidCredential, Inl InvalidCredential, Inr ada]"
    by (simp add: ada_def)
  from three_failures_lock_the_fourth_attempt
    [OF empty find_ada wrong, where ?p3.0 = "''0002''" and ?c1.0 = 0 and ?f1.0 = 1
      and ?c2.0 = 2 and ?f2.0 = 3 and ?c3.0 = 4 and ?f3.0 = 5 and ?c4.0 = 60000005
      and ?p4.0 = "''1234''" and ?f4.0 = 60000006]
  have locked: "fst (login_attempts
      [(''Ada Lovelace'', ''0000'', 0, 1), (''Ada Lovelace'', ''0001'', 2, 3),
       (''Ada Lovelace'', ''0002'', 4, 5), (''Ada Lovelace'', ''1234'', 60000005, 60000006)]
      example_session Map.empty) =
   [Inl InvalidCredential, Inl InvalidCredential, Inl InvalidCredential, Inl AccountLocked]"
    by (simp add: ada_def)
  from right_pin locked show ?thesis
    by (simp add: ada_def)
qed

section \<open>A successful login\<close>

text \<open>
  C4, as the claim states it, fails: two failures are on record under the spelling
  \<open>ada lovelace\<close>, which resolves to the same credential record as \<open>Ada Lovelace\<close>;
  a login as \<open>Ada Lovelace\<close> with the right PIN is accepted and the record under
  \<open>ada lovelace\<close> is still there.
\<close>

theorem success_keeps_other_spelling_counterexample:
  "fst (verify_pin ''Ada Lovelace'' ''1234'' example_session 10 11
          [''ada lovelace'' \<mapsto> (2, 5)]) = Inr ada \<and>
   find (matches (FullNameILike ''ada lovelace'')) (rows example_session) = Some ada \<and>
   snd (snd (verify_pin ''Ada Lovelace'' ''1234'' example_session 10 11
          [''ada lovelace'' \<mapsto> (2, 5)])) ''ada lovelace'' = Some (2, 5)"
  by code_simp

text \<open>
  C4, amended. After a login that \<open>verify_pin\<close> accepts, no failed-attempt record
  remains under the name exactly as it was typed in that login; the records under every
  other key, other spellings of the same name among them, are what they were before.
\<close>

theorem verify_pin_success_clears_typed_name:
  assumes "fst (verify_pin name pin session t_check t_fail fa) = Inr u"
  shows "snd (snd (verify_pin name pin session t_check t_fail fa)) = fa(name := None)"
  using assms
  by (auto simp: verify_pin_def exec_first_def split: sum.splits if_splits option.splits
      dest!: check_returns)

text \<open>
  The instance: one failure on record under the name as typed, two under another
  spelling; the right PIN for the name as typed.
\<close>

theorem verify_pin_success_clears_typed_name_witness:
  "fst (verify_pin ''Ada Lovelace'' ''1234'' example_session 10 11
          [''Ada Lovelace'' \<mapsto> (1, 3), ''ada lovelace'' \<mapsto> (2, 5)]) = Inr ada \<and>
   snd (snd (verify_pin ''Ada Lovelace'' ''1234'' example_session 10 11
          [''Ada Lovelace'' \<mapsto> (1, 3), ''ada lovelace'' \<mapsto> (2, 5)])) =
     [''Ada Lovelace'' \<mapsto> (1, 3), ''ada lovelace'' \<mapsto> (2, 5)](''Ada Lovelace'' := None)"
proof -
  have accepted:
    "fst (verify_pin ''Ada Lovelace'' ''1234'' example_session 10 11
            [''Ada Lovelace'' \<mapsto> (1, 3), ''ada lovelace'' \<mapsto> (2, 5)]) = Inr ada"
    by code_simp
  from verify_pin_success_clears_typed_name [OF accepted] accepted
  show ?thesis by simp
qed

section \<open>A rejected login\<close>

text \<open>
  C5. Take an attempt that the lockout check lets through (\<open>fa1\<close> is the tracker as
  the check leaves it) and a PIN, and two stores: in one the attempted name matches no
  identity, in the other it matches an identity whose PIN is another one. Both runs
  return the same invalid-credential error and leave the same tracker, in which the
  record under the attempted name has its count raised by one (or set to 1 when there
  was none) and its timestamp set to the time of this failure.
\<close>

theorem rejected_login_same_for_unknown_name_and_wrong_pin:
  assumes "check_failed_attempts name t_check fa = Inr fa1"
    and "find (matches (FullNameILike name)) (rows s_absent) = None"
    and "find (matches (FullNameILike name)) (rows s_wrong) = Some u"
    and "pin_code u \<noteq> pin"
  shows "fst (verify_pin name pin s_absent t_check t_fail fa) = Inl InvalidCredential \<and>
         fst (verify_pin name pin s_wrong t_check t_fail fa) = Inl InvalidCredential \<and>
         snd (snd (verify_pin name pin s_absent t_check t_fail fa)) =
           fa1(name \<mapsto>
             (case fa1 name of None \<Rightarrow> 1 | Some (attempts, t) \<Rightarrow> attempts + 1, t_fail)) \<and>
         snd (snd (verify_pin name pin s_wrong t_check t_fail fa)) =
           snd (snd (verify_pin name pin s_absent t_check t_fail fa))"
  using assms
  by (auto simp: verify_pin_def exec_first_def split: sum.splits if_splits option.splits)

text \<open>
  The instance: the same name and PIN against the empty store and against a store where
  the name is registered with another PIN, one failure being on record already.
\<close>

theorem rejected_login_same_for_unknown_name_and_wrong_pin_witness:
  "find (matches (FullNameILike ''Ada Lovelace'')) (rows empty_session) = None \<and>
   find (matches (FullNameILike ''Ada Lovelace'')) (rows example_session) = Some ada \<and>
   pin_code ada \<noteq> ''0000'' \<and>
   fst (verify_pin ''Ada Lovelace'' ''0000'' empty_session 10 11 [''Ada Lovelace'' \<mapsto> (1, 3)]) =
     Inl InvalidCredential \<and>
   fst (verify_pin ''Ada Lovelace'' ''0000'' example_session 10 11 [''Ada Lovelace'' \<mapsto> (1, 3)]) =
     Inl InvalidCredential \<and>
   snd (snd (verify_pin ''Ada Lovelace'' ''0000'' empty_session 10 11
               [''Ada Lovelace'' \<mapsto> (1, 3)])) = [''Ada Lovelace'' \<mapsto> (2, 11)] \<and>
   snd (snd (verify_pin ''Ada Lovelace'' ''0000'' example_session 10 11
               [''Ada Lovelace'' \<mapsto> (1, 3)])) = [''Ada Lovelace'' \<mapsto> (2, 11)]"
proof -
  have let_through:
    "check_failed_attempts ''Ada Lovelace'' 10 [''Ada Lovelace'' \<mapsto> (1, 3)] =
       Inr [''Ada Lovelace'' \<mapsto> (1, 3)]"
    by (simp add: check_failed_attempts_def)
  have absent: "find (matches (FullNameILike ''Ada Lovelace'')) (rows empty_session) = None"
    by (simp add: empty_session_def)
  have other_pin: "pin_code ada \<noteq> ''0000''"
    by (simp add: ada_def)
  from rejected_login_same_for_unknown_name_and_wrong_pin
    [OF let_through absent find_ada other_pin, of 11] absent find_ada other_pin
  show ?thesis by simp
qed

section \<open>A locked-out login changes nothing\<close>

text \<open>
  C9. Whenever \<open>verify_pin\<close> raises the lockout error, it leaves the tracker as it was
  (count and timestamp of every record, the one of the attempted name included) and
  the session as it was.
\<close>

theorem verify_pin_locked_changes_nothing:
  assumes "fst (verify_pin name pin session t_check t_fail fa) = Inl AccountLocked"
  shows "verify_pin name pin session t_check t_fail fa = (Inl AccountLocked, session, fa)"
  using assms
  by (auto simp: verify_pin_def exec_first_def split: sum.splits if_splits option.splits
      dest: check_raises_only_locked)

text \<open>
  The instance: five failures on record, the last 1000 seconds back, and a wrong PIN.
\<close>

theorem verify_pin_locked_changes_nothing_witness:
  "verify_pin ''Grace Hopper'' ''9999'' example_session 1000000000 1000000001
     [''Grace Hopper'' \<mapsto> (5, 0)] =
   (Inl AccountLocked, example_session, [''Grace Hopper'' \<mapsto> (5, 0)])"
proof -
  have locked:
    "fst (verify_pin ''Grace Hopper'' ''9999'' example_session 1000000000 1000000001
            [''Grace Hopper'' \<mapsto> (5, 0)]) = Inl AccountLocked"
    by (simp add: verify_pin_def check_failed_attempts_def seconds_def)
  from verify_pin_locked_changes_nothing [OF locked]
  show ?thesis .
qed

section \<open>Issue, then validate\<close>

lemma timegm_mono: "s \<le> t \<Longrightarrow> timegm s \<le> timegm t"
  by (simp add: timegm_def zdiv_mono1)

text \<open>The token that \<open>create_access_token\<close> builds from the data of a login.\<close>

lemma create_access_token_token_data:
  "create_access_token mac (token_data user) now =
   Inr (Token ''HS256''
     (token_data user @
        [(''exp'', PyInt (timegm (now + timedelta_hours 24))), (''sub'', PyStr (full_name user))])
     (mac SECRET_KEY (''HS256'',
        token_data user @
          [(''exp'', PyInt (timegm (now + timedelta_hours 24))),
           (''sub'', PyStr (full_name user))])))"
  by (cases "id_key user")
    (simp_all add: create_access_token_def token_data_def py_update_def py_get_def
      jwt_encode_def convert_time_claim_def ALGORITHM_def ACCESS_TOKEN_EXPIRE_HOURS_def Let_def)

text \<open>
  C6. For every name, role and user id, \<open>create_access_token\<close> on the data that the
  login endpoints build from them returns a token; decoded and validated at any time up
  to 24 hours after it was issued, the token yields a payload whose subject is the
  name, whose role is the role and whose user id is the user id.
\<close>

theorem issue_then_validate_round_trip:
  assumes "t \<le> now + timedelta_hours ACCESS_TOKEN_EXPIRE_HOURS"
  shows "\<exists>tok claims.
     create_access_token mac (token_data user) now = Inr tok \<and>
     jwt_decode mac tok SECRET_KEY [ALGORITHM] t = Inr claims \<and>
     py_get claims ''sub'' = PyStr (full_name user) \<and>
     py_get claims ''role'' = PyStr (role user) \<and>
     py_get claims ''user_id'' = (case id_key user of None \<Rightarrow> PyNone | Some i \<Rightarrow> PyInt i)"
proof -
  have "\<not> timegm (now + timedelta_hours 24) < timegm t"
    using timegm_mono [OF assms] by (simp add: ACCESS_TOKEN_EXPIRE_HOURS_def)
  then show ?thesis
    unfolding create_access_token_token_data
    by (simp add: jwt_decode_def validate_exp_def validate_sub_def py_get_def ALGORITHM_def
        token_data_def)
qed

text \<open>
  With such a token as its bearer credential, \<open>get_current_user\<close> looks the identity
  up by exactly the name the token was issued for.
\<close>

lemma get_current_user_after_issue:
  assumes "t \<le> now + timedelta_hours ACCESS_TOKEN_EXPIRE_HOURS"
    and "create_access_token mac (token_data user) now = Inr tok"
  shows "get_current_user mac (Some tok) session t =
     (case find (matches (FullNameEq (full_name user))) (rows session) of
        None \<Rightarrow> Inl credentials_exception
      | Some u \<Rightarrow> Inr u,
      session\<lparr>executed := executed session @ [FullNameEq (full_name user)]\<rparr>)"
proof -
  have "\<not> timegm (now + timedelta_hours 24) < timegm t"
    using timegm_mono [OF assms(1)] by (simp add: ACCESS_TOKEN_EXPIRE_HOURS_def)
  then show ?thesis
    using assms(2) unfolding create_access_token_token_data
    by (auto simp: get_current_user_def jwt_decode_def validate_exp_def validate_sub_def
        py_get_def ALGORITHM_def token_data_def exec_first_def
        split: option.splits simp del: matches.simps)
qed

text \<open>
  The instance: the token of the example user, issued at time 0 and validated at the
  last microsecond of its 24 hours.
\<close>

theorem issue_then_validate_round_trip_witness:
  "(86400000000 :: int) \<le> 0 + timedelta_hours ACCESS_TOKEN_EXPIRE_HOURS \<and>
   (\<exists>tok claims.
     create_access_token pairing_mac (token_data ada) 0 = Inr tok \<and>
     jwt_decode pairing_mac tok SECRET_KEY [ALGORITHM] 86400000000 = Inr claims \<and>
     py_get claims ''sub'' = PyStr ''Ada Lovelace'' \<and>
     py_get claims ''role'' = PyStr ''user'' \<and>
     py_get claims ''user_id'' = PyInt 2)"
proof -
  have window: "(86400000000 :: int) \<le> 0 + timedelta_hours ACCESS_TOKEN_EXPIRE_HOURS"
    by (simp add: timedelta_hours_def ACCESS_TOKEN_EXPIRE_HOURS_def)
  from issue_then_validate_round_trip [OF window, of pairing_mac ada] window
  show ?thesis by (simp add: ada_def)
qed

section \<open>Registration\<close>

lemma exec_first_rows:
  "exec_first w s = (r, s') \<Longrightarrow> rows s' = rows s \<and> r = find (matches w) (rows s)"
  by (auto simp: exec_first_def)

text \<open>
  The loop keeps \<open>existing\<close> the answer of the store for the current \<open>pin\<close>, leaves
  the rows alone, and stops either with a PIN that is free or with the counter at 100.
\<close>

lemma register_user_loop_invariant:
  "register_user_loop name randint p e a s = (p', e', a', s') \<Longrightarrow>
   e = find (matches (FullNameAndPinEq name p)) (rows s) \<Longrightarrow>
   rows s' = rows s \<and> e' = find (matches (FullNameAndPinEq name p')) (rows s) \<and>
   (e' = None \<or> 100 \<le> a')"
proof (induction name randint p e a s rule: register_user_loop.induct)
  case (1 name randint pin existing attempts session)
  show ?case
  proof (cases "existing \<noteq> None \<and> attempts < 100")
    case True
    obtain e1 s1 where ex:
      "exec_first (FullNameAndPinEq name (generate_pin (randint (attempts + 1)))) session =
         (e1, s1)"
      by (cases "exec_first (FullNameAndPinEq name (generate_pin (randint (attempts + 1))))
            session")
    from ex have r: "rows s1 = rows session"
      and e1: "e1 =
        find (matches (FullNameAndPinEq name (generate_pin (randint (attempts + 1)))))
          (rows session)"
      using exec_first_rows by blast+
    from "1.prems"(1) True ex
    have lp: "register_user_loop name randint (generate_pin (randint (attempts + 1))) e1
                (attempts + 1) s1 = (p', e', a', s')"
      by (simp del: matches.simps)
    have e1': "e1 =
        find (matches (FullNameAndPinEq name (generate_pin (randint (attempts + 1))))) (rows s1)"
      using e1 r by (simp del: matches.simps)
    from "1.IH" [OF True ex [symmetric] lp e1'] r
    show ?thesis by (auto simp del: matches.simps)
  next
    case False
    with "1.prems" show ?thesis by (auto simp del: matches.simps)
  qed
qed

text \<open>
  The counter reaches 100 exactly when the PIN drawn before the loop and the PINs drawn
  in its first 99 rounds all collide; the PIN drawn in round 100 plays no part.
\<close>

lemma register_user_loop_exhausted:
  "register_user_loop name randint p e a s = (p', e', a', s') \<Longrightarrow>
   a \<le> 100 \<Longrightarrow> p = generate_pin (randint a) \<Longrightarrow>
   e = find (matches (FullNameAndPinEq name p)) (rows s) \<Longrightarrow>
   (100 \<le> a') =
   (\<forall>k. a \<le> k \<and> k < 100 \<longrightarrow>
      find (matches (FullNameAndPinEq name (generate_pin (randint k)))) (rows s) \<noteq> None)"
proof (induction name randint p e a s rule: register_user_loop.induct)
  case (1 name randint pin existing attempts session)
  show ?case
  proof (cases "existing \<noteq> None \<and> attempts < 100")
    case True
    obtain e1 s1 where ex:
      "exec_first (FullNameAndPinEq name (generate_pin (randint (attempts + 1)))) session =
         (e1, s1)"
      by (cases "exec_first (FullNameAndPinEq name (generate_pin (randint (attempts + 1))))
            session")
    from ex have r: "rows s1 = rows session"
      and e1: "e1 =
        find (matches (FullNameAndPinEq name (generate_pin (randint (attempts + 1)))))
          (rows session)"
      using exec_first_rows by blast+
    from "1.prems"(1) True ex
    have lp: "register_user_loop name randint (generate_pin (randint (attempts + 1))) e1
                (attempts + 1) s1 = (p', e', a', s')"
      by (simp del: matches.simps)
    have e1': "e1 =
        find (matches (FullNameAndPinEq name (generate_pin (randint (attempts + 1))))) (rows s1)"
      using e1 r by (simp del: matches.simps)
    have le: "attempts + 1 \<le> 100"
      using True by simp
    from "1.IH" [OF True ex [symmetric] lp le refl e1'] r
    have ih: "(100 \<le> a') =
      (\<forall>k. attempts + 1 \<le> k \<and> k < 100 \<longrightarrow>
         find (matches (FullNameAndPinEq name (generate_pin (randint k)))) (rows session) \<noteq> None)"
      by (simp only: Suc_eq_plus1)
    have here:
      "find (matches (FullNameAndPinEq name (generate_pin (randint attempts)))) (rows session)
         \<noteq> None"
      using True "1.prems"(3,4) by (simp del: matches.simps)
    have "(\<forall>k. attempts \<le> k \<and> k < 100 \<longrightarrow>
        find (matches (FullNameAndPinEq name (generate_pin (randint k)))) (rows session) \<noteq> None)
      = (\<forall>k. attempts + 1 \<le> k \<and> k < 100 \<longrightarrow>
        find (matches (FullNameAndPinEq name (generate_pin (randint k)))) (rows session) \<noteq> None)"
      (is "?L = ?R")
    proof
      assume ?L
      then show ?R by (simp del: matches.simps)
    next
      assume R: ?R
      show ?L
      proof (intro allI impI)
        fix k
        assume k: "attempts \<le> k \<and> k < 100"
        show "find (matches (FullNameAndPinEq name (generate_pin (randint k)))) (rows session)
                \<noteq> None"
        proof (cases "k = attempts")
          case True
          with here show ?thesis by (simp del: matches.simps)
        next
          case False
          with k R show ?thesis by (simp del: matches.simps)
        qed
      qed
    qed
    with ih show ?thesis by (simp del: matches.simps)
  next
    case False
    with "1.prems" have eq: "a' = attempts"
      by (auto simp del: matches.simps)
    show ?thesis
    proof (cases "attempts < 100")
      case True
      with False have "existing = None" by simp
      with "1.prems"(3,4)
      have "find (matches (FullNameAndPinEq name (generate_pin (randint attempts))))
              (rows session) = None"
        by (simp del: matches.simps)
      with True eq show ?thesis by (auto simp del: matches.simps)
    next
      case False
      with eq show ?thesis by (auto simp del: matches.simps)
    qed
  qed
qed

text \<open>
  When \<open>register_user\<close> raises: exactly when the first hundred PINs drawn (the one
  before the loop and those of rounds 1 to 99) are all taken for the name.
\<close>

lemma register_user_raises_iff:
  "(fst (register_user user_data session randint now) = Inl IssuanceExhausted) =
   (\<forall>k<100.
      find (matches (FullNameAndPinEq (reg_full_name user_data) (generate_pin (randint k))))
        (rows session) \<noteq> None)"
proof -
  obtain e0 s0 where ex:
    "exec_first (FullNameAndPinEq (reg_full_name user_data) (generate_pin (randint 0))) session =
       (e0, s0)"
    by (cases "exec_first (FullNameAndPinEq (reg_full_name user_data) (generate_pin (randint 0)))
          session")
  then have r0: "rows s0 = rows session"
    and e0: "e0 =
      find (matches (FullNameAndPinEq (reg_full_name user_data) (generate_pin (randint 0))))
        (rows s0)"
    using exec_first_rows by fastforce+
  obtain p' e' a' s' where lp:
    "register_user_loop (reg_full_name user_data) randint (generate_pin (randint 0)) e0 0 s0 =
       (p', e', a', s')"
    by (cases "register_user_loop (reg_full_name user_data) randint (generate_pin (randint 0))
          e0 0 s0")
  from register_user_loop_exhausted [OF lp _ refl e0] r0
  have "(100 \<le> a') =
    (\<forall>k<100.
       find (matches (FullNameAndPinEq (reg_full_name user_data) (generate_pin (randint k))))
         (rows session) \<noteq> None)"
    by simp
  moreover
  have "(fst (register_user user_data session randint now) = Inl IssuanceExhausted) = (100 \<le> a')"
    using ex lp by (simp add: register_user_def add_commit_def Let_def)
  ultimately show ?thesis by simp
qed

text \<open>A registration that raises has stored nothing.\<close>

lemma register_user_raises_rows:
  assumes "fst (register_user user_data session randint now) = Inl e"
  shows "rows (snd (register_user user_data session randint now)) = rows session"
proof -
  obtain e0 s0 where ex:
    "exec_first (FullNameAndPinEq (reg_full_name user_data) (generate_pin (randint 0))) session =
       (e0, s0)"
    by (cases "exec_first (FullNameAndPinEq (reg_full_name user_data) (generate_pin (randint 0)))
          session")
  then have r0: "rows s0 = rows session"
    and e0: "e0 =
      find (matches (FullNameAndPinEq (reg_full_name user_data) (generate_pin (randint 0))))
        (rows s0)"
    using exec_first_rows by fastforce+
  obtain p' e' a' s' where lp:
    "register_user_loop (reg_full_name user_data) randint (generate_pin (randint 0)) e0 0 s0 =
       (p', e', a', s')"
    by (cases "register_user_loop (reg_full_name user_data) randint (generate_pin (randint 0))
          e0 0 s0")
  from register_user_loop_invariant [OF lp e0] r0 have "rows s' = rows session"
    by simp
  with assms ex lp show ?thesis
    by (simp add: register_user_def add_commit_def Let_def split: if_splits)
qed

lemma register_user_unique:
  assumes "unique_name_pin (rows session)"
  shows "unique_name_pin (rows (snd (register_user user_data session randint now)))"
proof -
  obtain e0 s0 where ex:
    "exec_first (FullNameAndPinEq (reg_full_name user_data) (generate_pin (randint 0))) session =
       (e0, s0)"
    by (cases "exec_first (FullNameAndPinEq (reg_full_name user_data) (generate_pin (randint 0)))
          session")
  then have r0: "rows s0 = rows session"
    and e0: "e0 =
      find (matches (FullNameAndPinEq (reg_full_name user_data) (generate_pin (randint 0))))
        (rows s0)"
    using exec_first_rows by fastforce+
  obtain p' e' a' s' where lp:
    "register_user_loop (reg_full_name user_data) randint (generate_pin (randint 0)) e0 0 s0 =
       (p', e', a', s')"
    by (cases "register_user_loop (reg_full_name user_data) randint (generate_pin (randint 0))
          e0 0 s0")
  from register_user_loop_invariant [OF lp e0] r0
  have r': "rows s' = rows session"
    and e': "e' = find (matches (FullNameAndPinEq (reg_full_name user_data) p')) (rows session)"
    and stop: "e' = None \<or> 100 \<le> a'"
    by auto
  show ?thesis
  proof (cases "100 \<le> a'")
    case True
    with ex lp r' assms show ?thesis
      by (simp add: register_user_def)
  next
    case False
    with stop e'
    have "find (matches (FullNameAndPinEq (reg_full_name user_data) p')) (rows session) = None"
      by simp
    then have "(reg_full_name user_data, p') \<notin>
        set (map (\<lambda>u. (full_name u, pin_code u)) (rows session))"
      by (auto simp: find_None_iff)
    with False ex lp r' assms show ?thesis
      by (simp add: register_user_def add_commit_def Let_def unique_name_pin_def)
  qed
qed

text \<open>
  C7. If no two identities of the store share both full name and PIN, then the same
  holds of the store after any sequence of registration requests served one after the
  other, whatever names they ask for and whatever PINs are drawn.
\<close>

theorem registration_keeps_name_pin_unique:
  "unique_name_pin (rows session) \<Longrightarrow>
   unique_name_pin (rows (register_users requests session))"
proof (induction requests arbitrary: session)
  case Nil
  then show ?case by simp
next
  case (Cons r rest)
  obtain user_data randint now where r: "r = (user_data, randint, now)"
    by (cases r)
  from Cons.prems
  have "unique_name_pin (rows (snd (register_user user_data session randint now)))"
    by (rule register_user_unique)
  then show ?case
    using Cons.IH r by simp
qed

text \<open>
  The instance: the example store, and two requests for the name it already holds; the
  first PIN drawn for each is the stored one.
\<close>

theorem registration_keeps_name_pin_unique_witness:
  "unique_name_pin (rows example_session) \<and>
   unique_name_pin (rows (register_users
     [(\<lparr>reg_full_name = ''Ada Lovelace''\<rparr>, second_draw_free, 7),
      (\<lparr>reg_full_name = ''Ada Lovelace''\<rparr>, late_free_draws, 8)] example_session))"
proof -
  have unique: "unique_name_pin (rows example_session)"
    by (simp add: unique_name_pin_def example_session_def)
  from registration_keeps_name_pin_unique [OF unique] unique
  show ?thesis by blast
qed

section \<open>The retry budget\<close>

lemma generate_pin_1234: "generate_pin 1234 = ''1234''"
  by code_simp

lemma generate_pin_1235: "generate_pin 1235 = ''1235''"
  by code_simp

text \<open>
  C8. The claim: registration raises the server error exactly when 100 regenerations
  have been used up without a free PIN, and not when a regeneration within the bound
  produced one. The source tests the counter, not the outcome of the last lookup: here
  the name holds PIN 1234, the PIN drawn before the loop and in rounds 1 to 99 is 1234,
  and round 100 draws 1235, which is free; the request raises all the same. Nothing is
  stored.
\<close>

theorem register_user_raises_with_a_free_pin_in_hand:
  "late_free_draws 100 = 1235 \<and>
   find (matches (FullNameAndPinEq ''Ada Lovelace'' (generate_pin (late_free_draws 100))))
     (rows example_session) = None \<and>
   fst (register_user \<lparr>reg_full_name = ''Ada Lovelace''\<rparr> example_session late_free_draws 7) =
     Inl IssuanceExhausted \<and>
   rows (snd (register_user \<lparr>reg_full_name = ''Ada Lovelace''\<rparr> example_session
                late_free_draws 7)) = rows example_session"
proof -
  have free: "find (matches (FullNameAndPinEq ''Ada Lovelace'' (generate_pin (late_free_draws 100))))
     (rows example_session) = None"
    by (simp add: late_free_draws_def generate_pin_1235 example_session_def ada_def)
  have "\<forall>k<100.
      find (matches (FullNameAndPinEq (reg_full_name \<lparr>reg_full_name = ''Ada Lovelace''\<rparr>)
              (generate_pin (late_free_draws k)))) (rows example_session) \<noteq> None"
    by (simp add: late_free_draws_def generate_pin_1234 example_session_def ada_def)
  then have raises:
    "fst (register_user \<lparr>reg_full_name = ''Ada Lovelace''\<rparr> example_session late_free_draws 7) =
       Inl IssuanceExhausted"
    by (simp only: register_user_raises_iff)
  from register_user_raises_rows [OF raises] raises free
  show ?thesis by (simp add: late_free_draws_def)
qed

section \<open>The default admin\<close>

text \<open>
  C10, as the claim states it, fails. A store in which the name of the default admin
  belongs to an ordinary user with another PIN is left as it is by a startup, so that
  it holds no admin with PIN 0000 afterwards; and a startup during which the database
  never becomes available raises and creates nothing.
\<close>

theorem startup_without_default_admin_counterexample:
  "lifespan database_up namesake_session 9 =
     Inr (namesake_session\<lparr>executed := [FullNameEq ''Abiel Robinson'']\<rparr>) \<and>
   filter (\<lambda>u. role u = ''admin'' \<and> pin_code u = ''0000'')
     (rows (namesake_session\<lparr>executed := [FullNameEq ''Abiel Robinson'']\<rparr>)) = [] \<and>
   lifespan database_down empty_session 9 = Inl OperationalError"
  by code_simp

text \<open>
  The retry loop gets through exactly when one of the calls of \<open>create_all\<close> numbered
  0 to 9 succeeds, and raises otherwise.
\<close>

lemma wait_for_database_from:
  "a < 10 \<Longrightarrow>
   wait_for_database create_all_ok [a..<10] =
     (if \<exists>k. a \<le> k \<and> k < 10 \<and> create_all_ok k then Inr () else Inl OperationalError)"
proof (induction "9 - a" arbitrary: a)
  case 0
  then have a: "a = 9" by simp
  have "(\<exists>k. 9 \<le> k \<and> k < 10 \<and> create_all_ok k) = create_all_ok 9"
  proof
    assume "\<exists>k. 9 \<le> k \<and> k < 10 \<and> create_all_ok k"
    then obtain k :: nat where "9 \<le> k" "k < 10" "create_all_ok k" by blast
    moreover from this have "k = 9" by simp
    ultimately show "create_all_ok 9" by simp
  next
    assume "create_all_ok 9"
    then show "\<exists>k. 9 \<le> k \<and> k < 10 \<and> create_all_ok k" by auto
  qed
  then show ?case
    by (simp add: a max_retries_def)
next
  case (Suc n)
  then have a: "a < 9" by simp
  then have l: "[a..<10] = a # [Suc a..<10]"
    by (simp add: upt_conv_Cons)
  have ih: "wait_for_database create_all_ok [Suc a..<10] =
     (if \<exists>k. Suc a \<le> k \<and> k < 10 \<and> create_all_ok k then Inr () else Inl OperationalError)"
    using Suc.hyps(1) [of "Suc a"] Suc.hyps(2) a by simp
  have split: "(\<exists>k. a \<le> k \<and> k < 10 \<and> create_all_ok k) =
     (create_all_ok a \<or> (\<exists>k. Suc a \<le> k \<and> k < 10 \<and> create_all_ok k))"
  proof
    assume "\<exists>k. a \<le> k \<and> k < 10 \<and> create_all_ok k"
    then obtain k where k: "a \<le> k" "k < 10" "create_all_ok k" by blast
    show "create_all_ok a \<or> (\<exists>k. Suc a \<le> k \<and> k < 10 \<and> create_all_ok k)"
    proof (cases "k = a")
      case True
      with k show ?thesis by simp
    next
      case False
      with k have "Suc a \<le> k" by simp
      with k show ?thesis by blast
    qed
  next
    assume "create_all_ok a \<or> (\<exists>k. Suc a \<le> k \<and> k < 10 \<and> create_all_ok k)"
    then show "\<exists>k. a \<le> k \<and> k < 10 \<and> create_all_ok k"
    proof
      assume "create_all_ok a"
      with a show ?thesis by (intro exI [of _ a]) simp
    next
      assume "\<exists>k. Suc a \<le> k \<and> k < 10 \<and> create_all_ok k"
      then obtain k where "Suc a \<le> k" "k < 10" "create_all_ok k" by blast
      then show ?thesis by (intro exI [of _ k]) simp
    qed
  qed
  show ?case
    unfolding l split using a ih by (auto simp: max_retries_def)
qed

lemma wait_for_database_iff:
  "wait_for_database create_all_ok [0..<max_retries] =
     (if \<exists>k<10. create_all_ok k then Inr () else Inl OperationalError)"
  using wait_for_database_from [of 0 create_all_ok] by (simp add: max_retries_def)

text \<open>A startup raises exactly when none of the ten calls succeeds.\<close>

lemma lifespan_raises_iff:
  "(\<exists>e. lifespan create_all_ok session now = Inl e) = (\<forall>k<10. \<not> create_all_ok k)"
  by (auto simp: lifespan_def wait_for_database_iff exec_first_def split: if_splits)

text \<open>
  C10, amended. On every startup in which one of the ten calls of \<open>create_all\<close>
  succeeds, \<open>lifespan\<close> gets through to the admin step and returns: if no identity
  with the full name "Abiel Robinson" exists, one is created with PIN 0000 and role
  admin, and no other row changes; if one exists, whatever its role and PIN, the rows
  are left as they are. After such a startup the store holds an identity with that
  name.
\<close>

theorem startup_creates_default_admin_unless_name_taken:
  assumes "k < 10" and "create_all_ok k"
  shows "\<exists>session'. lifespan create_all_ok session now = Inr session' \<and>
         (if find (matches (FullNameEq ''Abiel Robinson'')) (rows session) = None
          then rows session' = rows session @
                 [\<lparr>id_key = Some (next_id session), full_name = ''Abiel Robinson'',
                   pin_code = ''0000'', role = ''admin'', created_at = now\<rparr>]
          else rows session' = rows session) \<and>
         find (matches (FullNameEq ''Abiel Robinson'')) (rows session') \<noteq> None"
proof -
  have "\<exists>k<10. create_all_ok k"
    using assms by blast
  then have through: "wait_for_database create_all_ok [0..<max_retries] = Inr ()"
    by (simp only: wait_for_database_iff if_True)
  show ?thesis
    by (auto simp: lifespan_def through exec_first_def add_commit_def find_None_iff Let_def)
qed

text \<open>
  The instance: the database fails the first three calls and answers the fourth, and
  the store holds one ordinary user of another name.
\<close>

theorem startup_creates_default_admin_unless_name_taken_witness:
  "\<not> database_up_late 0 \<and> database_up_late 3 \<and>
   find (matches (FullNameEq ''Abiel Robinson'')) (rows example_session) = None \<and>
   (\<exists>session'. lifespan database_up_late example_session 9 = Inr session' \<and>
      rows session' =
        [ada, \<lparr>id_key = Some 3, full_name = ''Abiel Robinson'', pin_code = ''0000'',
               role = ''admin'', created_at = 9\<rparr>] \<and>
      find (matches (FullNameEq ''Abiel Robinson'')) (rows session') \<noteq> None)"
proof -
  have late: "\<not> database_up_late 0" "database_up_late 3"
    by (simp_all add: database_up_late_def)
  have free: "find (matches (FullNameEq ''Abiel Robinson'')) (rows example_session) = None"
    by (simp add: example_session_def ada_def)
  have rows: "rows example_session = [ada]" "next_id example_session = 3"
    by (simp_all add: example_session_def)
  from startup_creates_default_admin_unless_name_taken
    [of 3 database_up_late example_session 9] late free rows
  show ?thesis
    by (simp del: matches.simps)
qed

end
